theory Spec2Isabelle
  imports Main
begin

section \<open>Error values\<close>

text \<open>
  A Go \<^verbatim>\<open>error\<close> is an interface value: \<^verbatim>\<open>nil\<close> or a value of some dynamic type.
  The model writes it as \<open>err option\<close>, with \<open>None\<close> for \<^verbatim>\<open>nil\<close>. The dynamic types are
  the ones of the package (the sentinels made by \<^verbatim>\<open>errors.New\<close>, the typed validation
  errors, \<^verbatim>\<open>ErrorsClampedError\<close>, \<^verbatim>\<open>multiError\<close>) and one constructor for an error type
  declared by a caller: \<open>Foreign name u l\<close> has the method \<^verbatim>\<open>Unwrap() error\<close> returning
  \<open>u\<close>, and the method \<^verbatim>\<open>Len() int\<close> returning \<open>k\<close> when \<open>l = Some k\<close> (no such method
  when \<open>l = None\<close>). Its method \<^verbatim>\<open>Is(error) bool\<close>, when it has one, is given apart, by the
  table \<open>caller_Is\<close> below. A sentinel is identified by its text, one per package variable.
  \<^verbatim>\<open>OutOfRangeError[T]\<close> is taken at \<^verbatim>\<open>T = int\<close>.
\<close>

datatype err =
    Sentinel string
  | NotNilError string
  | NonZeroError string
  | NonEmptyError string
  | LenAtLeastError string int int
  | OutOfRangeError string int int int
  | NotInSetError string
  | ErrorsClampedError int int
  | Foreign string "err option" "int option"
  | MultiError "err option" "err option" "err option" "err option" "err option list"

definition ErrNotNil :: err where "ErrNotNil = Sentinel ''sanity:not_nil''"
definition ErrNonZero :: err where "ErrNonZero = Sentinel ''sanity:non_zero''"
definition ErrNonEmpty :: err where "ErrNonEmpty = Sentinel ''sanity:non_empty''"
definition ErrLenAtLeast :: err where "ErrLenAtLeast = Sentinel ''sanity:len_at_least''"
definition ErrOutOfRange :: err where "ErrOutOfRange = Sentinel ''sanity:out_of_range''"
definition ErrNotInSet :: err where "ErrNotInSet = Sentinel ''sanity:not_in_set''"
definition ErrClamped :: err where "ErrClamped = Sentinel ''sanity:errors_clamped''"

section \<open>Slices\<close>

text \<open>
  A Go slice is a window on a backing array: \<open>s_elems\<close> are the elements below
  \<^verbatim>\<open>len\<close>, \<open>s_spare\<close> the cells of the backing array between \<^verbatim>\<open>len\<close> and \<^verbatim>\<open>cap\<close>.
  The \<^verbatim>\<open>nil\<close> slice has neither.
  \<^verbatim>\<open>append(s, x)\<close> writes \<open>x\<close> into the first spare cell when there is one, and
  otherwise moves the elements to a new array, whose capacity beyond the needed
  \<^verbatim>\<open>len + 1\<close> is left to the Go runtime: the parameter \<open>slack\<close> gives that surplus
  from the old capacity.
\<close>

record slice =
  s_elems :: "err option list"
  s_spare :: "err option list"

definition nil_slice :: slice where
  "nil_slice = \<lparr>s_elems = [], s_spare = []\<rparr>"

definition len :: "slice \<Rightarrow> int" where
  "len s = int (length (s_elems s))"

definition cap :: "slice \<Rightarrow> int" where
  "cap s = int (length (s_elems s) + length (s_spare s))"

definition make_slice :: "nat \<Rightarrow> slice" where
  "make_slice c = \<lparr>s_elems = [], s_spare = replicate c None\<rparr>"

definition in_place :: "slice \<Rightarrow> bool" where
  "in_place s = (s_spare s \<noteq> [])"

definition append1 :: "(nat \<Rightarrow> nat) \<Rightarrow> slice \<Rightarrow> err option \<Rightarrow> slice" where
  "append1 slack s x =
     (if in_place s
      then \<lparr>s_elems = s_elems s @ [x], s_spare = tl (s_spare s)\<rparr>
      else \<lparr>s_elems = s_elems s @ [x],
            s_spare = replicate (slack (length (s_elems s) + length (s_spare s))) None\<rparr>)"

definition append_all :: "(nat \<Rightarrow> nat) \<Rightarrow> slice \<Rightarrow> err option list \<Rightarrow> slice" where
  "append_all slack s xs =
     (if length xs \<le> length (s_spare s)
      then \<lparr>s_elems = s_elems s @ xs, s_spare = drop (length xs) (s_spare s)\<rparr>
      else \<lparr>s_elems = s_elems s @ xs,
            s_spare = replicate (slack (length (s_elems s) + length (s_spare s))) None\<rparr>)"

section \<open>The Guard\<close>

text \<open>
  The fields of \<^verbatim>\<open>Guard\<close> under their own names, prefixed with \<open>g_\<close>. The counters are
  Go \<^verbatim>\<open>int\<close>s, modelled as unbounded integers: a counter grows by one per call, so the
  model is exact below \<open>2 ^ 63\<close> calls. \<open>g_mu\<close> tells whether a mutex is present;
  \<^verbatim>\<open>lock\<close> and \<^verbatim>\<open>unlock\<close> do nothing else to the state of a single caller, so the
  operations below are the code between them.
\<close>

record Guard =
  g_e0 :: "err option"
  g_e1 :: "err option"
  g_e2 :: "err option"
  g_e3 :: "err option"
  g_more :: slice
  g_n :: int
  g_max :: int
  g_compactRatio :: int
  g_mu :: bool
  g_checks :: int
  g_failures :: int
  g_dropped :: int

datatype GuardOption = WithMaxErrors int | WithCompactRatio int | WithThreadSafe

fun apply_option :: "GuardOption \<Rightarrow> Guard \<Rightarrow> Guard" where
  "apply_option (WithMaxErrors k) g = g\<lparr>g_max := (if k < 0 then 0 else k)\<rparr>"
| "apply_option (WithCompactRatio r) g = g\<lparr>g_compactRatio := r\<rparr>"
| "apply_option WithThreadSafe g = g\<lparr>g_mu := True\<rparr>"

definition zero_Guard :: Guard where
  "zero_Guard = \<lparr>g_e0 = None, g_e1 = None, g_e2 = None, g_e3 = None, g_more = nil_slice,
     g_n = 0, g_max = 0, g_compactRatio = 0, g_mu = False,
     g_checks = 0, g_failures = 0, g_dropped = 0\<rparr>"

definition NewGuard :: "GuardOption list \<Rightarrow> Guard" where
  "NewGuard opts = fold apply_option opts (zero_Guard\<lparr>g_max := 1\<rparr>)"

record MGStats =
  Checks :: int
  Failures :: int
  Kept :: int
  Dropped :: int

definition Stats :: "Guard \<Rightarrow> MGStats" where
  "Stats g = \<lparr>Checks = g_checks g, Failures = g_failures g, Kept = g_n g, Dropped = g_dropped g\<rparr>"

definition Reset :: "Guard \<Rightarrow> Guard" where
  "Reset g = g\<lparr>g_e0 := None, g_e1 := None, g_e2 := None, g_e3 := None, g_more := nil_slice,
     g_n := 0, g_checks := 0, g_failures := 0, g_dropped := 0\<rparr>"

definition Ok :: "Guard \<Rightarrow> bool" where
  "Ok g = (g_n g = 0)"

text \<open>The test \<^verbatim>\<open>g.max > 0 && g.n >= g.max\<close>, which \<^verbatim>\<open>Add\<close>, \<^verbatim>\<open>CheckLazy\<close>,
  \<^verbatim>\<open>AddCheck\<close> and \<^verbatim>\<open>Run\<close> each write out.\<close>

definition at_cap :: "Guard \<Rightarrow> bool" where
  "at_cap g = (g_max g > 0 \<and> g_n g \<ge> g_max g)"

definition Add :: "(nat \<Rightarrow> nat) \<Rightarrow> err option \<Rightarrow> Guard \<Rightarrow> Guard" where
  "Add slack e g =
     (if e = None then g
      else let g1 = g\<lparr>g_failures := g_failures g + 1\<rparr> in
        if g_max g1 > 0 \<and> g_n g1 \<ge> g_max g1 then g1\<lparr>g_dropped := g_dropped g1 + 1\<rparr>
        else let g2 =
              (if g_n g1 = 0 then g1\<lparr>g_e0 := e\<rparr>
               else if g_n g1 = 1 then g1\<lparr>g_e1 := e\<rparr>
               else if g_n g1 = 2 then g1\<lparr>g_e2 := e\<rparr>
               else if g_n g1 = 3 then g1\<lparr>g_e3 := e\<rparr>
               else g1\<lparr>g_more := append1 slack (g_more g1) e\<rparr>)
             in g2\<lparr>g_n := g_n g2 + 1\<rparr>)"

definition Check :: "(nat \<Rightarrow> nat) \<Rightarrow> err option \<Rightarrow> Guard \<Rightarrow> Guard" where
  "Check slack e g = (if e = None then g else Add slack e g)"

section \<open>Lazy checks\<close>

text \<open>
  A check is caller code: a function value, \<^verbatim>\<open>nil\<close> or a closure. Evaluating a closure
  returns an error and may change what the caller owns; that part of the world is the
  state \<open>'w\<close>, threaded through every evaluation, so that whether and in which order
  closures ran can be read off the final \<open>'w\<close>. Closures do not touch the Guard.
\<close>

type_synonym 'w check = "('w \<Rightarrow> err option \<times> 'w) option"

definition CheckLazy :: "(nat \<Rightarrow> nat) \<Rightarrow> 'w check \<Rightarrow> Guard \<times> 'w \<Rightarrow> Guard \<times> 'w" where
  "CheckLazy slack makeErr gw =
     (case gw of (g, w) \<Rightarrow>
       (case makeErr of
          None \<Rightarrow> (g, w)
        | Some f \<Rightarrow>
            if g_max g > 0 \<and> g_n g \<ge> g_max g then (g, w)
            else let g1 = g\<lparr>g_checks := g_checks g + 1\<rparr> in
              (case f w of (e, w') \<Rightarrow>
                 if e \<noteq> None then (Add slack e g1, w') else (g1, w'))))"

definition AddCheck :: "(nat \<Rightarrow> nat) \<Rightarrow> 'w check \<Rightarrow> Guard \<times> 'w \<Rightarrow> Guard \<times> 'w" where
  "AddCheck slack f gw =
     (case gw of (g, w) \<Rightarrow>
       (case f of
          None \<Rightarrow> (g, w)
        | Some c \<Rightarrow>
            if g_max g > 0 \<and> g_n g \<ge> g_max g then (g, w)
            else let g1 = g\<lparr>g_checks := g_checks g + 1\<rparr> in
              (case c w of (e, w') \<Rightarrow>
                 if e \<noteq> None then (Add slack e g1, w') else (g1, w'))))"

fun Run :: "(nat \<Rightarrow> nat) \<Rightarrow> 'w check list \<Rightarrow> Guard \<times> 'w \<Rightarrow> Guard \<times> 'w" where
  "Run slack [] gw = gw"
| "Run slack (f # checks) gw =
     (let reached = (g_max (fst gw) > 0 \<and> g_n (fst gw) \<ge> g_max (fst gw)) in
      if reached then gw else Run slack checks (AddCheck slack f gw))"

section \<open>Materializing the aggregate\<close>

definition countNonNil4 :: "err option \<Rightarrow> err option \<Rightarrow> err option \<Rightarrow> err option \<Rightarrow> int" where
  "countNonNil4 a b c d =
     (if a \<noteq> None then 1 else 0) + (if b \<noteq> None then 1 else 0) +
     (if c \<noteq> None then 1 else 0) + (if d \<noteq> None then 1 else 0)"

text \<open>
  What \<^verbatim>\<open>snapshotErrorsLocked\<close> returns. \<open>sn_shared\<close> is the one thing the Go tuple
  does not spell out: whether the returned slice is \<^verbatim>\<open>gd.more\<close> itself, on the Guard's
  backing array (the branch \<^verbatim>\<open>!needCopy\<close>), or a slice on a new array.
\<close>

record snapshot =
  sn_e0 :: "err option"
  sn_e1 :: "err option"
  sn_e2 :: "err option"
  sn_e3 :: "err option"
  sn_more :: slice
  sn_dropped :: int
  sn_shared :: bool

text \<open>The product \<^verbatim>\<open>ratio*len(m)\<close> is taken in unbounded integers; it decides only between
  the Guard's slice and a copy with the same elements.\<close>

definition needCopy :: "Guard \<Rightarrow> bool" where
  "needCopy gd =
     (let m = g_more gd; dropped = g_dropped gd;
          ratio = (if g_compactRatio gd \<le> 0 then 2 else g_compactRatio gd);
          threadsafe = g_mu gd
      in threadsafe \<or> dropped > 0 \<or> (len m > 0 \<and> cap m > ratio * len m))"

definition snapshotErrorsLocked :: "(nat \<Rightarrow> nat) \<Rightarrow> Guard \<Rightarrow> snapshot" where
  "snapshotErrorsLocked slack gd =
     (let m = g_more gd; dropped = g_dropped gd in
      if \<not> needCopy gd
      then \<lparr>sn_e0 = g_e0 gd, sn_e1 = g_e1 gd, sn_e2 = g_e2 gd, sn_e3 = g_e3 gd,
             sn_more = m, sn_dropped = dropped, sn_shared = True\<rparr>
      else let want = (if dropped > 0 then len m + 1 else len m);
               out = make_slice (nat want);
               out = (if len m > 0 then append_all slack out (s_elems m) else out)
           in \<lparr>sn_e0 = g_e0 gd, sn_e1 = g_e1 gd, sn_e2 = g_e2 gd, sn_e3 = g_e3 gd,
                sn_more = out, sn_dropped = dropped, sn_shared = False\<rparr>)"

text \<open>
  \<^verbatim>\<open>Err\<close> returns the error and the Guard as it leaves it. No field of the Guard is
  assigned; the one write is \<^verbatim>\<open>append(more, ...)\<close>, which, when \<open>more\<close> is the Guard's own
  slice and has a spare cell, puts the notice into the Guard's backing array.
\<close>

definition Err :: "(nat \<Rightarrow> nat) \<Rightarrow> Guard \<Rightarrow> err option \<times> Guard" where
  "Err slack gd =
     (if g_n gd = 0 then (None, gd)
      else if g_n gd = 1 then
        (let e0 = g_e0 gd; dropped = g_dropped gd in
         if e0 = None then (None, gd)
         else if dropped = 0 then (e0, gd)
         else (Some (MultiError e0 None None None [Some (ErrorsClampedError 1 dropped)]), gd))
      else
        (let sn = snapshotErrorsLocked slack gd; more = sn_more sn; dropped = sn_dropped sn in
         if dropped > 0 then
           (let kept = countNonNil4 (sn_e0 sn) (sn_e1 sn) (sn_e2 sn) (sn_e3 sn) + len more;
                notice = Some (ErrorsClampedError kept dropped);
                more' = append1 slack more notice;
                gd' = (if sn_shared sn \<and> in_place more
                       then gd\<lparr>g_more := (g_more gd)\<lparr>s_spare := notice # tl (s_spare (g_more gd))\<rparr>\<rparr>
                       else gd)
            in (Some (MultiError (sn_e0 sn) (sn_e1 sn) (sn_e2 sn) (sn_e3 sn) (s_elems more')), gd'))
         else (Some (MultiError (sn_e0 sn) (sn_e1 sn) (sn_e2 sn) (sn_e3 sn) (s_elems more)), gd)))"

section \<open>The aggregate\<close>

text \<open>
  The methods of \<^verbatim>\<open>multiError\<close>; no other type has them, and on the other constructors
  the functions below do nothing. A visitor is a closure with its own variables: it
  takes the member and its variables \<open>'a\<close>, and returns whether to go on and the
  variables as it leaves them.
\<close>

fun iter_more :: "(err option \<Rightarrow> 'a \<Rightarrow> bool \<times> 'a) \<Rightarrow> err option list \<Rightarrow> 'a \<Rightarrow> 'a" where
  "iter_more fn [] a = a"
| "iter_more fn (x # xs) a =
     (case fn x a of (go_on, a') \<Rightarrow> if \<not> go_on then a' else iter_more fn xs a')"

fun Iter :: "err \<Rightarrow> (err option \<Rightarrow> 'a \<Rightarrow> bool \<times> 'a) \<Rightarrow> 'a \<Rightarrow> 'a" where
  "Iter (MultiError e0 e1 e2 e3 m_more) fn a =
     (case (if e0 \<noteq> None then fn e0 a else (True, a)) of (go0, a0) \<Rightarrow>
      if \<not> go0 then a0 else
     (case (if e1 \<noteq> None then fn e1 a0 else (True, a0)) of (go1, a1) \<Rightarrow>
      if \<not> go1 then a1 else
     (case (if e2 \<noteq> None then fn e2 a1 else (True, a1)) of (go2, a2) \<Rightarrow>
      if \<not> go2 then a2 else
     (case (if e3 \<noteq> None then fn e3 a2 else (True, a2)) of (go3, a3) \<Rightarrow>
      if \<not> go3 then a3 else iter_more fn m_more a3))))"
| "Iter _ fn a = a"

text \<open>The member sequence of an aggregate: what a visitor that never stops is handed.\<close>

definition members :: "err \<Rightarrow> err option list" where
  "members m = Iter m (\<lambda>e acc. (True, acc @ [e])) []"

text \<open>
  \<open>Unwrap e\<close> is \<open>Some r\<close> when the type of \<open>e\<close> has the method \<^verbatim>\<open>Unwrap() error\<close>, which
  returns \<open>r\<close>; \<open>Unwrap_list e\<close> is \<open>Some rs\<close> when it has \<^verbatim>\<open>Unwrap() []error\<close>.
\<close>

fun Unwrap :: "err \<Rightarrow> err option option" where
  "Unwrap (NotNilError f) = Some (Some ErrNotNil)"
| "Unwrap (NonZeroError f) = Some (Some ErrNonZero)"
| "Unwrap (NonEmptyError f) = Some (Some ErrNonEmpty)"
| "Unwrap (LenAtLeastError f w g) = Some (Some ErrLenAtLeast)"
| "Unwrap (NotInSetError f) = Some (Some ErrNotInSet)"
| "Unwrap (OutOfRangeError f lo hi g) = Some (Some ErrOutOfRange)"
| "Unwrap (ErrorsClampedError k d) = Some (Some ErrClamped)"
| "Unwrap (Foreign name u l) = Some u"
| "Unwrap (Sentinel s) = None"
| "Unwrap (MultiError e0 e1 e2 e3 m_more) = None"

fun Unwrap_list :: "err \<Rightarrow> err option list option" where
  "Unwrap_list (MultiError e0 e1 e2 e3 m_more) =
     Some ((if e0 \<noteq> None then [e0] else []) @ (if e1 \<noteq> None then [e1] else []) @
           (if e2 \<noteq> None then [e2] else []) @ (if e3 \<noteq> None then [e3] else []) @ m_more)"
| "Unwrap_list _ = None"

text \<open>A \<^verbatim>\<open>multiError\<close> holds a slice, so its type is not comparable; every other type is.\<close>

fun comparable :: "err \<Rightarrow> bool" where
  "comparable (MultiError e0 e1 e2 e3 m_more) = False"
| "comparable _ = True"

fun is_multiError :: "err \<Rightarrow> bool" where
  "is_multiError (MultiError e0 e1 e2 e3 m_more) = True"
| "is_multiError _ = False"

text \<open>The depth of an error's tree, by which the recursion of \<^verbatim>\<open>errors.Is\<close> ends.\<close>

fun rank :: "err \<Rightarrow> nat" where
  "rank (Foreign name u l) = Suc (case u of None \<Rightarrow> 0 | Some e \<Rightarrow> rank e)"
| "rank (MultiError e0 e1 e2 e3 m_more) =
     Suc ((case e0 of None \<Rightarrow> 0 | Some e \<Rightarrow> rank e) + (case e1 of None \<Rightarrow> 0 | Some e \<Rightarrow> rank e) +
          (case e2 of None \<Rightarrow> 0 | Some e \<Rightarrow> rank e) + (case e3 of None \<Rightarrow> 0 | Some e \<Rightarrow> rank e) +
          sum_list (map (\<lambda>x. case x of None \<Rightarrow> 0 | Some e \<Rightarrow> rank e) m_more))"
| "rank (Sentinel s) = 0"
| "rank _ = 1"

section \<open>Group helpers\<close>

text \<open>The method \<^verbatim>\<open>Len() int\<close> of the dynamic type, for the types that have one.\<close>

fun Len_method :: "err \<Rightarrow> int option" where
  "Len_method (Foreign name u l) = l"
| "Len_method _ = None"

definition GroupLen :: "err option \<Rightarrow> int \<times> bool" where
  "GroupLen e =
     (case e of
        None \<Rightarrow> (0, False)
      | Some x \<Rightarrow> (case Len_method x of Some k \<Rightarrow> (k, True) | None \<Rightarrow> (0, False)))"

section \<open>Sequences of operations\<close>

text \<open>
  The public operations of a Guard, and a caller that performs a list of them in order.
  \<^verbatim>\<open>Stats\<close> and \<^verbatim>\<open>Ok\<close> only read; \<^verbatim>\<open>Err\<close> leaves the Guard as \<open>Err\<close> above returns it.
\<close>

datatype 'w op =
    OpAdd "err option"
  | OpCheck "err option"
  | OpCheckLazy "'w check"
  | OpAddCheck "'w check"
  | OpRun "'w check list"
  | OpStats
  | OpOk
  | OpErr
  | OpReset

fun step :: "(nat \<Rightarrow> nat) \<Rightarrow> 'w op \<Rightarrow> Guard \<times> 'w \<Rightarrow> Guard \<times> 'w" where
  "step slack (OpAdd e) gw = (Add slack e (fst gw), snd gw)"
| "step slack (OpCheck e) gw = (Check slack e (fst gw), snd gw)"
| "step slack (OpCheckLazy f) gw = CheckLazy slack f gw"
| "step slack (OpAddCheck f) gw = AddCheck slack f gw"
| "step slack (OpRun fs) gw = Run slack fs gw"
| "step slack OpStats gw = gw"
| "step slack OpOk gw = gw"
| "step slack OpErr gw = (snd (Err slack (fst gw)), snd gw)"
| "step slack OpReset gw = (Reset (fst gw), snd gw)"

definition run_ops :: "(nat \<Rightarrow> nat) \<Rightarrow> 'w op list \<Rightarrow> Guard \<times> 'w \<Rightarrow> Guard \<times> 'w" where
  "run_ops slack ops gw = fold (step slack) ops gw"

section \<open>What the specification speaks of\<close>

text \<open>The kept records of a Guard: the first \<open>g_n\<close> cells of its storage, the four inline
  slots followed by the overflow slice.\<close>

definition kept_records :: "Guard \<Rightarrow> err option list" where
  "kept_records g =
     take (nat (g_n g)) ([g_e0 g, g_e1 g, g_e2 g, g_e3 g] @ s_elems (g_more g))"

text \<open>The invariant of the data model: \<open>kept \<le> cap\<close> and \<open>kept + dropped = failures\<close> when
  \<open>cap > 0\<close>, else \<open>dropped = 0\<close>.\<close>

definition state_invariant :: "Guard \<Rightarrow> bool" where
  "state_invariant g =
     ((g_max g > 0 \<longrightarrow> g_n g \<le> g_max g \<and> g_n g + g_dropped g = g_failures g) \<and>
      (g_max g = 0 \<longrightarrow> g_dropped g = 0))"

text \<open>How the storage of a Guard is laid out when \<open>g_n\<close> records are kept: the slots are
  filled from \<open>e0\<close> on, the overflow slice holds the records after the fourth, and no
  stored record is \<^verbatim>\<open>nil\<close>.\<close>

definition well_formed :: "Guard \<Rightarrow> bool" where
  "well_formed g =
     (0 \<le> g_n g \<and>
      (g_e0 g \<noteq> None) = (1 \<le> g_n g) \<and> (g_e1 g \<noteq> None) = (2 \<le> g_n g) \<and>
      (g_e2 g \<noteq> None) = (3 \<le> g_n g) \<and> (g_e3 g \<noteq> None) = (4 \<le> g_n g) \<and>
      len (g_more g) = (if 4 \<le> g_n g then g_n g - 4 else 0) \<and>
      None \<notin> set (s_elems (g_more g)))"

text \<open>A Guard as \<^verbatim>\<open>NewGuard\<close> and \<^verbatim>\<open>Reset\<close> leave it: nothing stored, every counter zero.\<close>

definition pristine :: "Guard \<Rightarrow> bool" where
  "pristine g =
     (g_e0 g = None \<and> g_e1 g = None \<and> g_e2 g = None \<and> g_e3 g = None \<and>
      g_more g = nil_slice \<and> g_n g = 0 \<and>
      g_checks g = 0 \<and> g_failures g = 0 \<and> g_dropped g = 0)"

text \<open>
  The category relation of the specification: a member unwraps, directly or
  transitively through its own chain, to an error. The chain of an error begins with
  the error itself and goes on with what \<^verbatim>\<open>Unwrap\<close> returns, through every member
  for an aggregate.
\<close>

inductive unwraps_to :: "err \<Rightarrow> err \<Rightarrow> bool" where
  itself: "unwraps_to e e"
| single: "Unwrap e = Some (Some e') \<Longrightarrow> unwraps_to e' t \<Longrightarrow> unwraps_to e t"
| member: "Unwrap_list e = Some es \<Longrightarrow> Some e' \<in> set es \<Longrightarrow> unwraps_to e' t \<Longrightarrow> unwraps_to e t"

code_pred unwraps_to .

section \<open>Category tests\<close>

text \<open>
  An error type of a caller may have a method \<^verbatim>\<open>Is(error) bool\<close>, and what it answers is
  the caller's code. The table \<open>cis\<close> holds these methods: \<open>cis e = Some p\<close> when the type
  of the caller's error \<open>e\<close> has the method, \<open>p t\<close> being what \<^verbatim>\<open>e.Is(t)\<close> returns, and
  \<open>cis e = None\<close> when it has none. The table is read at \<open>Foreign\<close> errors only: of the
  package's types, \<^verbatim>\<open>multiError\<close> alone has the method.
\<close>

type_synonym caller_Is = "err \<Rightarrow> (err \<Rightarrow> bool) option"

text \<open>One such table, for the examples: the caller's error \<open>always\<close> says yes to every
  target, and no other error of a caller has the method.\<close>

definition always :: err where
  "always = Foreign ''always'' None None"

definition always_Is :: caller_Is where
  "always_Is e = (if e = always then Some (\<lambda>t. True) else None)"

definition no_Is :: caller_Is where
  "no_Is e = None"

text \<open>
  What \<^verbatim>\<open>errors.Is\<close> looks for on the chain of a member: an error that is the target, or
  an error of a caller whose own \<^verbatim>\<open>Is\<close> method accepts the target.
\<close>

inductive chain_accepts :: "caller_Is \<Rightarrow> err \<Rightarrow> err \<Rightarrow> bool" for cis :: caller_Is where
  itself: "chain_accepts cis e e"
| by_Is: "cis (Foreign name u l) = Some p \<Longrightarrow> p t \<Longrightarrow> chain_accepts cis (Foreign name u l) t"
| single: "Unwrap e = Some (Some e') \<Longrightarrow> chain_accepts cis e' t \<Longrightarrow> chain_accepts cis e t"
| member: "Unwrap_list e = Some es \<Longrightarrow> Some e' \<in> set es \<Longrightarrow> chain_accepts cis e' t \<Longrightarrow>
           chain_accepts cis e t"

code_pred chain_accepts .

text \<open>No error on the chain of \<open>e\<close> is an error of a caller with an \<^verbatim>\<open>Is\<close> method.\<close>

fun without_Is :: "caller_Is \<Rightarrow> err \<Rightarrow> bool" where
  "without_Is cis (Foreign name u l) =
     (cis (Foreign name u l) = None \<and> (case u of None \<Rightarrow> True | Some e \<Rightarrow> without_Is cis e))"
| "without_Is cis (MultiError e0 e1 e2 e3 m_more) =
     ((case e0 of None \<Rightarrow> True | Some e \<Rightarrow> without_Is cis e) \<and>
      (case e1 of None \<Rightarrow> True | Some e \<Rightarrow> without_Is cis e) \<and>
      (case e2 of None \<Rightarrow> True | Some e \<Rightarrow> without_Is cis e) \<and>
      (case e3 of None \<Rightarrow> True | Some e \<Rightarrow> without_Is cis e) \<and>
      list_all (\<lambda>x. case x of None \<Rightarrow> True | Some e \<Rightarrow> without_Is cis e) m_more)"
| "without_Is cis _ = True"

text \<open>
  \<^verbatim>\<open>errors.Is\<close> of the Go standard library, as \<^verbatim>\<open>multiError.Is\<close> calls it.
  \<open>errors_Is\<close> is the entry point, \<open>is_go\<close> its loop \<^verbatim>\<open>is(err, target, targetComparable)\<close>:
  compare when the target is comparable; ask the \<^verbatim>\<open>Is\<close> method when the type of the
  error has one (\<^verbatim>\<open>multiError\<close>, or a caller's type by the table); then go on with
  \<^verbatim>\<open>Unwrap() error\<close> or through every result of \<^verbatim>\<open>Unwrap() []error\<close>.
\<close>

function is_go :: "caller_Is \<Rightarrow> err \<Rightarrow> err \<Rightarrow> bool \<Rightarrow> bool"
  and multiError_Is :: "caller_Is \<Rightarrow> err \<Rightarrow> err option \<Rightarrow> bool"
  and errors_Is :: "caller_Is \<Rightarrow> err option \<Rightarrow> err option \<Rightarrow> bool"
where
  "is_go cis e target targetComparable =
     (if targetComparable \<and> e = target then True
      else if (case e of
                 MultiError e0 e1 e2 e3 m_more \<Rightarrow> multiError_Is cis e (Some target)
               | Foreign name u l \<Rightarrow> (case cis e of Some p \<Rightarrow> p target | None \<Rightarrow> False)
               | _ \<Rightarrow> False) then True
      else (case Unwrap e of
              Some u \<Rightarrow> (case u of None \<Rightarrow> False
                         | Some e' \<Rightarrow> is_go cis e' target targetComparable)
            | None \<Rightarrow>
               (case Unwrap_list e of
                  Some es \<Rightarrow>
                    list_ex (\<lambda>x. case x of None \<Rightarrow> False
                                  | Some e' \<Rightarrow> is_go cis e' target targetComparable) es
                | None \<Rightarrow> False)))"
| "multiError_Is cis m target =
     (case m of
        MultiError e0 e1 e2 e3 m_more \<Rightarrow>
          if target = None then False
          else if e0 \<noteq> None \<and> errors_Is cis e0 target then True
          else if e1 \<noteq> None \<and> errors_Is cis e1 target then True
          else if e2 \<noteq> None \<and> errors_Is cis e2 target then True
          else if e3 \<noteq> None \<and> errors_Is cis e3 target then True
          else list_ex (\<lambda>e. errors_Is cis e target) m_more
      | _ \<Rightarrow> False)"
| "errors_Is cis e target =
     (case (e, target) of
        (Some e', Some t') \<Rightarrow> is_go cis e' t' (comparable t')
      | _ \<Rightarrow> e = target)"
  by pat_completeness auto

termination
proof -
  have unwrap: "rank e' < rank e" if "Unwrap e = Some (Some e')" for e e'
    using that
    by (cases e) (auto simp: ErrNotNil_def ErrNonZero_def ErrNonEmpty_def ErrLenAtLeast_def
        ErrNotInSet_def ErrOutOfRange_def ErrClamped_def)
  have more: "case_option 0 rank x \<le> sum_list (map (case_option 0 rank) ms)"
    if "x \<in> set ms" for x ms
    using that by (induction ms) auto
  have unwrap_list: "rank e' < rank e"
    if "Unwrap_list e = Some es" and "Some e' \<in> set es" for e es e'
    using that by (cases e) (auto split: if_splits dest: more)
  have member: "3 * case_option 0 rank x < Suc (k + 3 * sum_list (map (case_option 0 rank) ms))"
    if "x \<in> set ms" for x k ms
    using more [OF that] by simp
  show ?thesis
    apply (relation "measure (\<lambda>x. case x of
            Inl (cis, e, t, c) \<Rightarrow> 3 * rank e + 1
          | Inr (Inl (cis, m, t)) \<Rightarrow> 3 * rank m
          | Inr (Inr (cis, eo, t)) \<Rightarrow> 3 * (case eo of None \<Rightarrow> 0 | Some e \<Rightarrow> rank e) + 2)")
    apply (auto dest: unwrap unwrap_list simp: member add.assoc [symmetric])
    done
qed

declare is_go.simps [simp del] multiError_Is.simps [simp del] errors_Is.simps [simp del]


section \<open>Slices and \<^verbatim>\<open>Add\<close>\<close>

lemma s_elems_append1: "s_elems (append1 slack s x) = s_elems s @ [x]"
  by (simp add: append1_def)

lemma len_append1: "len (append1 slack s x) = len s + 1"
  by (simp add: len_def s_elems_append1)

lemma s_elems_append_all: "s_elems (append_all slack s xs) = s_elems s @ xs"
  by (simp add: append_all_def)

lemma Add_None: "Add slack None g = g"
  by (simp add: Add_def)

lemma Add_at_cap:
  "at_cap g \<Longrightarrow> Add slack (Some e) g = g\<lparr>g_failures := g_failures g + 1, g_dropped := g_dropped g + 1\<rparr>"
  by (simp add: Add_def at_cap_def Let_def)

lemma Add_config:
  "g_max (Add slack e g) = g_max g" "g_compactRatio (Add slack e g) = g_compactRatio g"
  "g_mu (Add slack e g) = g_mu g" "g_checks (Add slack e g) = g_checks g"
  by (simp_all add: Add_def Let_def)

lemma Add_failures: "g_failures (Add slack (Some e) g) = g_failures g + 1"
  by (simp add: Add_def Let_def)

lemma Add_n: "g_n (Add slack (Some e) g) = (if at_cap g then g_n g else g_n g + 1)"
  by (simp add: Add_def Let_def at_cap_def)

lemma Add_dropped: "g_dropped (Add slack (Some e) g) = (if at_cap g then g_dropped g + 1 else g_dropped g)"
  by (simp add: Add_def Let_def at_cap_def)

lemma Add_well_formed: "well_formed g \<Longrightarrow> well_formed (Add slack e g)"
  by (cases e) (auto simp: well_formed_def Add_def Let_def len_append1 s_elems_append1)

lemma Add_kept_records:
  assumes "well_formed g"
  shows "kept_records (Add slack (Some e) g) =
           (if at_cap g then kept_records g else kept_records g @ [Some e])"
proof (cases "at_cap g")
  case True
  then show ?thesis by (simp add: Add_at_cap kept_records_def)
next
  case False
  consider "g_n g = 0" | "g_n g = 1" | "g_n g = 2" | "g_n g = 3" | "4 \<le> g_n g"
    using assms by (auto simp: well_formed_def) 
  then show ?thesis
  proof cases
    case 5
    have "length (s_elems (g_more g)) = nat (g_n g - 4)"
      using assms 5 by (auto simp: well_formed_def len_def)
    with 5 False show ?thesis
      by (simp add: Add_def Let_def at_cap_def kept_records_def s_elems_append1 nat_diff_distrib nat_add_distrib)
  qed (use False in \<open>simp_all add: Add_def Let_def at_cap_def kept_records_def eval_nat_numeral\<close>)
qed


section \<open>Construction and sequences of \<^verbatim>\<open>Add\<close>\<close>

lemma fold_apply_option_frame:
  "g_e0 (fold apply_option opts g) = g_e0 g \<and> g_e1 (fold apply_option opts g) = g_e1 g \<and>
   g_e2 (fold apply_option opts g) = g_e2 g \<and> g_e3 (fold apply_option opts g) = g_e3 g \<and>
   g_more (fold apply_option opts g) = g_more g \<and> g_n (fold apply_option opts g) = g_n g \<and>
   g_checks (fold apply_option opts g) = g_checks g \<and>
   g_failures (fold apply_option opts g) = g_failures g \<and>
   g_dropped (fold apply_option opts g) = g_dropped g \<and>
   (0 \<le> g_max g \<longrightarrow> 0 \<le> g_max (fold apply_option opts g))"
proof (induction opts arbitrary: g)
  case Nil
  show ?case by simp
next
  case (Cons a opts)
  show ?case using Cons [of "apply_option a g"] by (cases a) simp_all
qed

lemma pristine_NewGuard: "pristine (NewGuard opts)"
  using fold_apply_option_frame [of opts "zero_Guard\<lparr>g_max := 1\<rparr>"]
  by (simp add: pristine_def NewGuard_def zero_Guard_def)

lemma NewGuard_max: "0 \<le> g_max (NewGuard opts)"
  using fold_apply_option_frame [of opts "zero_Guard\<lparr>g_max := 1\<rparr>"]
  by (simp add: NewGuard_def zero_Guard_def)

lemma pristine_Reset: "pristine (Reset g)"
  by (simp add: pristine_def Reset_def)

lemma pristine_well_formed: "pristine g \<Longrightarrow> well_formed g"
  by (simp add: pristine_def well_formed_def nil_slice_def len_def)

lemma pristine_kept_records: "pristine g \<Longrightarrow> kept_records g = []"
  by (simp add: pristine_def kept_records_def)

lemma Add_all_from_pristine:
  assumes "pristine g0"
  shows "well_formed (fold (\<lambda>e. Add slack (Some e)) es g0) \<and>
         g_max (fold (\<lambda>e. Add slack (Some e)) es g0) = g_max g0 \<and>
         g_n (fold (\<lambda>e. Add slack (Some e)) es g0) =
           (if g_max g0 > 0 then min (int (length es)) (g_max g0) else int (length es)) \<and>
         g_failures (fold (\<lambda>e. Add slack (Some e)) es g0) = int (length es) \<and>
         g_dropped (fold (\<lambda>e. Add slack (Some e)) es g0) =
           (if g_max g0 > 0 then max 0 (int (length es) - g_max g0) else 0) \<and>
         kept_records (fold (\<lambda>e. Add slack (Some e)) es g0) =
           map Some (take (nat (if g_max g0 > 0 then min (int (length es)) (g_max g0)
                                else int (length es))) es)"
proof (induction es rule: rev_induct)
  case Nil
  show ?case using assms
    by (simp add: pristine_well_formed pristine_kept_records) (simp add: pristine_def)
next
  case (snoc e es)
  define g where "g = fold (\<lambda>e. Add slack (Some e)) es g0"
  have wf: "well_formed g" and mx: "g_max g = g_max g0"
    and n: "g_n g = (if g_max g0 > 0 then min (int (length es)) (g_max g0) else int (length es))"
    and f: "g_failures g = int (length es)"
    and d: "g_dropped g = (if g_max g0 > 0 then max 0 (int (length es) - g_max g0) else 0)"
    and k: "kept_records g = map Some (take (nat (if g_max g0 > 0 then min (int (length es)) (g_max g0)
                                else int (length es))) es)"
    using snoc by (simp_all add: g_def)
  have step: "fold (\<lambda>e. Add slack (Some e)) (es @ [e]) g0 = Add slack (Some e) g"
    by (simp add: g_def)
  have cap: "at_cap g = (g_max g0 > 0 \<and> g_max g0 \<le> int (length es))"
    by (auto simp: at_cap_def mx n)
  show ?case
  proof (cases "at_cap g")
    case True
    then have "nat (g_max g0) \<le> length es"
      using cap by linarith
    with True show ?thesis
      unfolding step using cap wf mx n f d k
      by (simp add: Add_well_formed Add_config Add_n Add_failures Add_dropped Add_kept_records)
  next
    case False
    then show ?thesis
      unfolding step using cap wf mx n f d k
      by (auto simp add: Add_well_formed Add_config Add_n Add_failures Add_dropped Add_kept_records
          nat_add_distrib)
  qed
qed


section \<open>Materialization\<close>

lemma snapshot_shared: "sn_shared (snapshotErrorsLocked slack g) \<Longrightarrow> \<not> g_dropped g > 0"
  by (auto simp: snapshotErrorsLocked_def needCopy_def Let_def split: if_splits)

lemma snapshot_dropped: "sn_dropped (snapshotErrorsLocked slack g) = g_dropped g"
  by (simp add: snapshotErrorsLocked_def Let_def)

lemma snapshot_slots:
  "sn_e0 (snapshotErrorsLocked slack g) = g_e0 g" "sn_e1 (snapshotErrorsLocked slack g) = g_e1 g"
  "sn_e2 (snapshotErrorsLocked slack g) = g_e2 g" "sn_e3 (snapshotErrorsLocked slack g) = g_e3 g"
  by (simp_all add: snapshotErrorsLocked_def Let_def)

lemma snapshot_elems: "s_elems (sn_more (snapshotErrorsLocked slack g)) = s_elems (g_more g)"
  by (simp add: snapshotErrorsLocked_def Let_def s_elems_append_all make_slice_def len_def)

lemma Err_Guard: "snd (Err slack g) = g"
  using snapshot_shared [of slack g]
  by (auto simp: Err_def Let_def snapshot_dropped)

lemma Err_value:
  "fst (Err slack g) =
     (if g_n g = 0 then None
      else if g_n g = 1 then
        (if g_e0 g = None then None
         else if g_dropped g = 0 then g_e0 g
         else Some (MultiError (g_e0 g) None None None [Some (ErrorsClampedError 1 (g_dropped g))]))
      else Some (MultiError (g_e0 g) (g_e1 g) (g_e2 g) (g_e3 g)
             (s_elems (g_more g) @
              (if g_dropped g > 0
               then [Some (ErrorsClampedError
                      (countNonNil4 (g_e0 g) (g_e1 g) (g_e2 g) (g_e3 g) + len (g_more g))
                      (g_dropped g))]
               else []))))"
  by (simp add: Err_def Let_def snapshot_dropped snapshot_slots snapshot_elems s_elems_append1 len_def)

lemma iter_more_collect: "iter_more (\<lambda>e acc. (True, acc @ [e])) ms acc = acc @ ms"
  by (induction ms arbitrary: acc) simp_all

lemma members_MultiError:
  "members (MultiError e0 e1 e2 e3 ms) =
     (if e0 \<noteq> None then [e0] else []) @ (if e1 \<noteq> None then [e1] else []) @
     (if e2 \<noteq> None then [e2] else []) @ (if e3 \<noteq> None then [e3] else []) @ ms"
  by (simp add: members_def iter_more_collect)

section \<open>Invariants along sequences of operations\<close>

lemma Check_eq_Add: "Check slack e g = Add slack e g"
  by (simp add: Check_def Add_def)

lemma AddCheck_eq_CheckLazy: "AddCheck slack f gw = CheckLazy slack f gw"
  by (simp add: AddCheck_def CheckLazy_def)

lemma CheckLazy_at_cap: "at_cap g \<Longrightarrow> CheckLazy slack f (g, w) = (g, w)"
  by (simp add: CheckLazy_def at_cap_def split: option.splits)

lemma CheckLazy_not_at_cap:
  "\<not> at_cap g \<Longrightarrow>
   CheckLazy slack (Some f) (g, w) =
     (Add slack (fst (f w)) (g\<lparr>g_checks := g_checks g + 1\<rparr>), snd (f w))"
  by (auto simp: CheckLazy_def at_cap_def Let_def Add_None split: prod.splits)

lemma well_formed_checks: "well_formed (g\<lparr>g_checks := k\<rparr>) = well_formed g"
  by (simp add: well_formed_def)

lemma state_invariant_checks: "state_invariant (g\<lparr>g_checks := k\<rparr>) = state_invariant g"
  by (simp add: state_invariant_def)

lemma Add_state_invariant: "state_invariant g \<Longrightarrow> state_invariant (Add slack e g)"
  by (cases e) (auto simp: state_invariant_def Add_def Let_def)

lemma CheckLazy_well_formed: "well_formed (fst gw) \<Longrightarrow> well_formed (fst (CheckLazy slack f gw))"
proof (cases gw)
  case (Pair g w)
  assume "well_formed (fst gw)"
  with Pair show ?thesis
    by (cases f; cases "at_cap g")
      (simp_all add: CheckLazy_at_cap CheckLazy_not_at_cap Add_well_formed well_formed_checks,
        simp add: CheckLazy_def)
qed

lemma CheckLazy_state_invariant:
  "state_invariant (fst gw) \<Longrightarrow> state_invariant (fst (CheckLazy slack f gw))"
proof (cases gw)
  case (Pair g w)
  assume "state_invariant (fst gw)"
  with Pair show ?thesis
    by (cases f; cases "at_cap g")
      (simp_all add: CheckLazy_at_cap CheckLazy_not_at_cap Add_state_invariant
        state_invariant_checks, simp add: CheckLazy_def)
qed

lemma Run_well_formed: "well_formed (fst gw) \<Longrightarrow> well_formed (fst (Run slack fs gw))"
  by (induction fs arbitrary: gw) (simp_all add: Let_def AddCheck_eq_CheckLazy CheckLazy_well_formed)

lemma Run_state_invariant: "state_invariant (fst gw) \<Longrightarrow> state_invariant (fst (Run slack fs gw))"
  by (induction fs arbitrary: gw)
    (simp_all add: Let_def AddCheck_eq_CheckLazy CheckLazy_state_invariant)

lemma Reset_well_formed: "well_formed (Reset g)"
  by (simp add: pristine_Reset pristine_well_formed)

lemma Reset_state_invariant: "state_invariant g \<Longrightarrow> state_invariant (Reset g)"
  by (simp add: state_invariant_def Reset_def)

lemma step_well_formed: "well_formed (fst gw) \<Longrightarrow> well_formed (fst (step slack x gw))"
  by (cases x)
    (simp_all add: Add_well_formed Check_eq_Add CheckLazy_well_formed AddCheck_eq_CheckLazy
      Run_well_formed Err_Guard Reset_well_formed)

lemma step_state_invariant: "state_invariant (fst gw) \<Longrightarrow> state_invariant (fst (step slack x gw))"
  by (cases x)
    (simp_all add: Add_state_invariant Check_eq_Add CheckLazy_state_invariant AddCheck_eq_CheckLazy
      Run_state_invariant Err_Guard Reset_state_invariant)

lemma run_ops_well_formed: "well_formed (fst gw) \<Longrightarrow> well_formed (fst (run_ops slack ops gw))"
  unfolding run_ops_def by (induction ops arbitrary: gw) (simp_all add: step_well_formed)

lemma run_ops_state_invariant:
  "state_invariant (fst gw) \<Longrightarrow> state_invariant (fst (run_ops slack ops gw))"
  unfolding run_ops_def by (induction ops arbitrary: gw) (simp_all add: step_state_invariant)

lemma NewGuard_state_invariant: "state_invariant (NewGuard opts)"
  using pristine_NewGuard [of opts] NewGuard_max [of opts]
  by (simp add: state_invariant_def pristine_def)

section \<open>\<^verbatim>\<open>Run\<close>\<close>

lemma Run_at_cap: "at_cap g \<Longrightarrow> Run slack fs (g, w) = (g, w)"
  by (cases fs) (simp_all add: at_cap_def)

lemma Run_not_at_cap:
  "\<not> at_cap g \<Longrightarrow> Run slack (f # fs) (g, w) = Run slack fs (AddCheck slack f (g, w))"
  by (auto simp: at_cap_def Let_def)

lemma Run_scenario:
  assumes mx: "g_max g = 2" and p: "pristine g"
    and a: "fst (f1 w) = Some a" and b: "fst (f2 (snd (f1 w))) = Some b"
  shows "Run slack [Some f1, Some f2, f3] (g, w) =
           (g\<lparr>g_e0 := Some a, g_e1 := Some b, g_n := 2, g_checks := 2, g_failures := 2\<rparr>,
            snd (f2 (snd (f1 w))))"
proof -
  define g1 where "g1 = g\<lparr>g_e0 := Some a, g_n := 1, g_checks := 1, g_failures := 1\<rparr>"
  define g2 where
    "g2 = g\<lparr>g_e0 := Some a, g_e1 := Some b, g_n := 2, g_checks := 2, g_failures := 2\<rparr>"
  have c0: "\<not> at_cap g" and c1: "\<not> at_cap g1" and c2: "at_cap g2"
    using mx p by (simp_all add: at_cap_def pristine_def g1_def g2_def)
  have s1: "AddCheck slack (Some f1) (g, w) = (g1, snd (f1 w))"
    using mx p a c0
    by (simp add: AddCheck_eq_CheckLazy CheckLazy_not_at_cap Add_def Let_def pristine_def g1_def)
  have s2: "AddCheck slack (Some f2) (g1, snd (f1 w)) = (g2, snd (f2 (snd (f1 w))))"
    using mx p b c1
    by (simp add: AddCheck_eq_CheckLazy CheckLazy_not_at_cap Add_def Let_def pristine_def
        g1_def g2_def)
  show ?thesis
    unfolding g2_def [symmetric]
    by (simp only: Run_not_at_cap [OF c0] s1 Run_not_at_cap [OF c1] s2 Run_at_cap [OF c2])
qed

section \<open>What \<^verbatim>\<open>Err\<close> returns for a well-formed Guard\<close>

lemma well_formed_one:
  assumes "well_formed g" "g_n g = 1"
  shows "\<exists>r. g_e0 g = Some r \<and> kept_records g = [Some r]"
  using assms by (auto simp: well_formed_def kept_records_def)

lemma well_formed_many:
  assumes wf: "well_formed g" and n: "2 \<le> g_n g"
  shows "(if g_e0 g \<noteq> None then [g_e0 g] else []) @ (if g_e1 g \<noteq> None then [g_e1 g] else []) @
         (if g_e2 g \<noteq> None then [g_e2 g] else []) @ (if g_e3 g \<noteq> None then [g_e3 g] else []) @
         s_elems (g_more g) = kept_records g"
    and "countNonNil4 (g_e0 g) (g_e1 g) (g_e2 g) (g_e3 g) + len (g_more g) = g_n g"
proof -
  consider "g_n g = 2" | "g_n g = 3" | "4 \<le> g_n g"
    using n by linarith
  then have "((if g_e0 g \<noteq> None then [g_e0 g] else []) @ (if g_e1 g \<noteq> None then [g_e1 g] else []) @
         (if g_e2 g \<noteq> None then [g_e2 g] else []) @ (if g_e3 g \<noteq> None then [g_e3 g] else []) @
         s_elems (g_more g) = kept_records g) \<and>
         countNonNil4 (g_e0 g) (g_e1 g) (g_e2 g) (g_e3 g) + len (g_more g) = g_n g"
  proof cases
    case 3
    then have "nat (g_n g) = Suc (Suc (Suc (Suc (length (s_elems (g_more g))))))"
      using wf by (auto simp: well_formed_def len_def)
    with 3 wf show ?thesis
      by (auto simp: well_formed_def kept_records_def countNonNil4_def len_def)
  qed (use wf in \<open>auto simp: well_formed_def kept_records_def countNonNil4_def len_def
         eval_nat_numeral\<close>)
  then show "(if g_e0 g \<noteq> None then [g_e0 g] else []) @ (if g_e1 g \<noteq> None then [g_e1 g] else []) @
         (if g_e2 g \<noteq> None then [g_e2 g] else []) @ (if g_e3 g \<noteq> None then [g_e3 g] else []) @
         s_elems (g_more g) = kept_records g"
    and "countNonNil4 (g_e0 g) (g_e1 g) (g_e2 g) (g_e3 g) + len (g_more g) = g_n g"
    by simp_all
qed

lemma Err_well_formed:
  assumes wf: "well_formed g"
  shows "(g_n g = 0 \<longrightarrow> fst (Err slack g) = None) \<and>
     (g_n g = 1 \<and> g_dropped g = 0 \<longrightarrow>
        (\<exists>r. kept_records g = [Some r] \<and> fst (Err slack g) = Some r)) \<and>
     (g_n g = 1 \<and> g_dropped g > 0 \<longrightarrow>
        (\<exists>r m. kept_records g = [Some r] \<and> fst (Err slack g) = Some m \<and> is_multiError m \<and>
           members m = [Some r, Some (ErrorsClampedError 1 (g_dropped g))])) \<and>
     (g_n g \<ge> 2 \<longrightarrow>
        (\<exists>m. fst (Err slack g) = Some m \<and> is_multiError m \<and>
           members m = kept_records g @
             (if g_dropped g > 0 then [Some (ErrorsClampedError (g_n g) (g_dropped g))] else [])))"
proof (intro conjI impI)
  show "fst (Err slack g) = None" if "g_n g = 0"
    using that by (simp add: Err_value)
next
  assume "g_n g = 1 \<and> g_dropped g = 0"
  with well_formed_one [OF wf] show "\<exists>r. kept_records g = [Some r] \<and> fst (Err slack g) = Some r"
    by (auto simp: Err_value)
next
  assume "g_n g = 1 \<and> g_dropped g > 0"
  with well_formed_one [OF wf]
  show "\<exists>r m. kept_records g = [Some r] \<and> fst (Err slack g) = Some m \<and> is_multiError m \<and>
           members m = [Some r, Some (ErrorsClampedError 1 (g_dropped g))]"
    by (auto simp: Err_value members_MultiError)
next
  assume n: "g_n g \<ge> 2"
  from well_formed_many [OF wf n]
  show "\<exists>m. fst (Err slack g) = Some m \<and> is_multiError m \<and>
           members m = kept_records g @
             (if g_dropped g > 0 then [Some (ErrorsClampedError (g_n g) (g_dropped g))] else [])"
    using n by (simp add: Err_value members_MultiError del: append_assoc add: append_assoc [symmetric])
qed

section \<open>The category test and the chains\<close>

lemma rank_Unwrap: "Unwrap e = Some (Some e') \<Longrightarrow> rank e' < rank e"
  by (cases e) (auto simp: ErrNotNil_def ErrNonZero_def ErrNonEmpty_def ErrLenAtLeast_def
      ErrNotInSet_def ErrOutOfRange_def ErrClamped_def)

lemma rank_in_more:
  "x \<in> set ms \<Longrightarrow> case_option 0 rank x \<le> sum_list (map (case_option 0 rank) ms)"
  by (induction ms) auto

lemma rank_Unwrap_list: "Unwrap_list e = Some es \<Longrightarrow> Some e' \<in> set es \<Longrightarrow> rank e' < rank e"
  by (cases e) (auto split: if_splits dest: rank_in_more)

lemma Unwrap_list_members: "Unwrap_list m = Some es \<Longrightarrow> members m = es"
  by (cases m) (auto simp: members_MultiError)

lemma Unwrap_list_no_Unwrap: "Unwrap_list m = Some es \<Longrightarrow> Unwrap m = None"
  by (cases m) auto

lemma Unwrap_list_is_multiError: "Unwrap_list m = Some es \<Longrightarrow> is_multiError m"
  by (cases m) auto

lemma errors_Is_Some: "errors_Is cis (Some e) (Some t) = is_go cis e t (comparable t)"
  by (simp add: errors_Is.simps)

lemma errors_Is_None: "errors_Is cis None (Some t) = False"
  by (simp add: errors_Is.simps)

lemma multiError_Is_members:
  "multiError_Is cis m (Some t) =
     (is_multiError m \<and> (\<exists>x. Some x \<in> set (members m) \<and> errors_Is cis (Some x) (Some t)))"
proof (cases m)
  case (MultiError e0 e1 e2 e3 ms)
  have more: "list_ex (\<lambda>e. errors_Is cis e (Some t)) ms =
           (\<exists>x. Some x \<in> set ms \<and> errors_Is cis (Some x) (Some t))"
  proof
    assume "list_ex (\<lambda>e. errors_Is cis e (Some t)) ms"
    then obtain e where e: "e \<in> set ms" "errors_Is cis e (Some t)"
      by (auto simp: list_ex_iff)
    have "e \<noteq> None"
    proof
      assume "e = None"
      with e(2) show False by (simp add: errors_Is_None)
    qed
    with e show "\<exists>x. Some x \<in> set ms \<and> errors_Is cis (Some x) (Some t)"
      by auto
  next
    assume "\<exists>x. Some x \<in> set ms \<and> errors_Is cis (Some x) (Some t)"
    then show "list_ex (\<lambda>e. errors_Is cis e (Some t)) ms"
      by (auto simp: list_ex_iff)
  qed
  show ?thesis
    unfolding MultiError multiError_Is.simps [of cis "MultiError e0 e1 e2 e3 ms"]
    by (auto simp: members_MultiError more)
qed (simp_all add: multiError_Is.simps)

lemma chain_accepts_is_go: "chain_accepts cis e t \<Longrightarrow> is_go cis e t True"
proof (induction rule: chain_accepts.induct)
  case (itself e)
  show ?case by (subst is_go.simps) simp
next
  case (by_Is name u l p t)
  then show ?case by (subst is_go.simps) simp
next
  case (single e e' t)
  then show ?case by (subst is_go.simps) simp
next
  case (member e es e' t)
  then show ?case
    by (subst is_go.simps) (auto simp: Unwrap_list_no_Unwrap list_ex_iff intro!: bexI [of _ "Some e'"])
qed

lemma is_go_chain_accepts:
  assumes "comparable t"
  shows "is_go cis e t True \<Longrightarrow> chain_accepts cis e t"
proof (induction e rule: measure_induct_rule [of rank])
  case (less e)
  from less.prems consider
      (eq) "e = t"
    | (is_method) "multiError_Is cis e (Some t)"
    | (caller) name u l p where "e = Foreign name u l" "cis e = Some p" "p t"
    | (unwrap) e' where "Unwrap e = Some (Some e')" "is_go cis e' t True"
    | (unwrap_list) es e' where "Unwrap_list e = Some es" "Some e' \<in> set es" "is_go cis e' t True"
    by (subst (asm) is_go.simps)
      (auto split: if_splits option.splits err.splits simp: list_ex_iff multiError_Is.simps)
  then show ?case
  proof cases
    case eq
    then show ?thesis by (simp add: chain_accepts.itself)
  next
    case is_method
    then obtain x where m: "is_multiError e" and x: "Some x \<in> set (members e)"
      and go: "is_go cis x t True"
      using assms by (auto simp: multiError_Is_members errors_Is_Some)
    from m obtain es where es: "Unwrap_list e = Some es"
      by (cases e) auto
    with x have "Some x \<in> set es"
      by (simp add: Unwrap_list_members)
    with es go show ?thesis
      using less.IH [of x] rank_Unwrap_list [of e es x] by (auto intro: chain_accepts.member)
  next
    case caller
    then show ?thesis by (auto intro: chain_accepts.by_Is)
  next
    case unwrap
    then show ?thesis
      using less.IH [of e'] rank_Unwrap [of e e'] by (auto intro: chain_accepts.single)
  next
    case unwrap_list
    then show ?thesis
      using less.IH [of e'] rank_Unwrap_list [of e es e'] by (auto intro: chain_accepts.member)
  qed
qed

lemma multiError_Is_chain_accepts:
  "comparable t \<Longrightarrow>
   multiError_Is cis m (Some t) =
     (is_multiError m \<and> (\<exists>x. Some x \<in> set (members m) \<and> chain_accepts cis x t))"
  using chain_accepts_is_go [of cis _ t] is_go_chain_accepts [of t cis]
  by (auto simp: multiError_Is_members errors_Is_Some)

lemma unwraps_to_chain_accepts: "unwraps_to e t \<Longrightarrow> chain_accepts cis e t"
  by (induction rule: unwraps_to.induct) (auto intro: chain_accepts.intros)

lemma without_Is_Unwrap: "without_Is cis e \<Longrightarrow> Unwrap e = Some (Some e') \<Longrightarrow> without_Is cis e'"
  by (cases e) (auto simp: ErrNotNil_def ErrNonZero_def ErrNonEmpty_def ErrLenAtLeast_def
      ErrNotInSet_def ErrOutOfRange_def ErrClamped_def)

lemma list_all_Some:
  "list_all (\<lambda>x. case x of None \<Rightarrow> True | Some e \<Rightarrow> P e) ms \<Longrightarrow> Some e' \<in> set ms \<Longrightarrow> P e'"
  by (induction ms) auto

lemma without_Is_Unwrap_list:
  "without_Is cis e \<Longrightarrow> Unwrap_list e = Some es \<Longrightarrow> Some e' \<in> set es \<Longrightarrow> without_Is cis e'"
  by (cases e) (auto split: if_splits dest: list_all_Some)

lemma chain_accepts_unwraps_to:
  "chain_accepts cis e t \<Longrightarrow> without_Is cis e \<Longrightarrow> unwraps_to e t"
proof (induction rule: chain_accepts.induct)
  case (itself e)
  show ?case by (rule unwraps_to.itself)
next
  case (by_Is name u l p t)
  then show ?case by simp
next
  case (single e e' t)
  then show ?case
    using without_Is_Unwrap [of cis e e'] by (auto intro: unwraps_to.single)
next
  case (member e es e' t)
  then show ?case
    using without_Is_Unwrap_list [of cis e es e'] by (auto intro: unwraps_to.member)
qed

lemma multiError_Is_unwraps_to:
  assumes c: "comparable t" and w: "without_Is cis m"
  shows "multiError_Is cis m (Some t) =
     (is_multiError m \<and> (\<exists>x. Some x \<in> set (members m) \<and> unwraps_to x t))"
proof -
  have "chain_accepts cis x t = unwraps_to x t" if "Some x \<in> set (members m)" "is_multiError m" for x
  proof -
    from that obtain es where "Unwrap_list m = Some es" "Some x \<in> set es"
      by (cases m) (auto simp: members_MultiError)
    then have "without_Is cis x"
      using w without_Is_Unwrap_list by blast
    then show ?thesis
      using chain_accepts_unwraps_to unwraps_to_chain_accepts by blast
  qed
  then show ?thesis
    unfolding multiError_Is_chain_accepts [OF c] by blast
qed

lemma notice_unwraps_to: "unwraps_to (ErrorsClampedError k d) ErrClamped"
  by (rule unwraps_to.single [of _ ErrClamped]) (simp_all add: unwraps_to.itself)

lemma unwraps_to_is_go_no_Is: "unwraps_to e t \<Longrightarrow> is_go no_Is e t True"
  by (rule chain_accepts_is_go) (rule unwraps_to_chain_accepts)

section \<open>The notice in the aggregate, and two aggregates computed\<close>

lemma Err_notice_Is_ErrClamped:
  assumes n: "1 \<le> g_n g" and e0: "g_e0 g \<noteq> None" and d: "g_dropped g > 0"
  shows "\<exists>m. fst (Err slack g) = Some m \<and> is_multiError m \<and>
           multiError_Is cis m (Some ErrClamped)"
proof -
  have c: "comparable ErrClamped"
    by (simp add: ErrClamped_def)
  have notice: "chain_accepts cis (ErrorsClampedError k d) ErrClamped" for k d
    by (rule unwraps_to_chain_accepts) (rule notice_unwraps_to)
  have "\<exists>m k. fst (Err slack g) = Some m \<and> is_multiError m \<and>
          Some (ErrorsClampedError k (g_dropped g)) \<in> set (members m)"
  proof (cases "g_n g = 1")
    case True
    with e0 d show ?thesis
      by (auto simp: Err_value members_MultiError)
  next
    case False
    with n d show ?thesis
      by (auto simp: Err_value members_MultiError)
  qed
  then show ?thesis
    unfolding multiError_Is_chain_accepts [OF c] using notice by blast
qed

lemma scenario_B_Err:
  "fst (Err (\<lambda>c. c)
     (fst (run_ops (\<lambda>c. c)
        [OpAdd (Some (NonEmptyError ''a'')), OpAdd (Some (NonZeroError ''b'')),
         OpAdd (Some (OutOfRangeError ''c'' (- 1) 0 1))]
        (NewGuard [WithMaxErrors 2], ())))) =
   Some (MultiError (Some (NonEmptyError ''a'')) (Some (NonZeroError ''b'')) None None
          [Some (ErrorsClampedError 2 1)])"
  by (simp add: run_ops_def NewGuard_def zero_Guard_def Add_def Err_value nil_slice_def
      countNonNil4_def len_def)

lemma scenario_B_Is:
  "multiError_Is always_Is
     (MultiError (Some (NonEmptyError ''a'')) (Some (NonZeroError ''b'')) None None
          [Some (ErrorsClampedError 2 1)]) (Some ErrNonEmpty)"
  "multiError_Is always_Is
     (MultiError (Some (NonEmptyError ''a'')) (Some (NonZeroError ''b'')) None None
          [Some (ErrorsClampedError 2 1)]) (Some ErrClamped)"
  "\<not> multiError_Is always_Is
     (MultiError (Some (NonEmptyError ''a'')) (Some (NonZeroError ''b'')) None None
          [Some (ErrorsClampedError 2 1)]) (Some ErrOutOfRange)"
  by (simp_all add: multiError_Is.simps errors_Is.simps is_go.simps ErrNonEmpty_def ErrClamped_def
      ErrOutOfRange_def ErrNonZero_def)

lemma scenario_always_Err:
  "fst (Err id
     (fst (run_ops id [OpAdd (Some always), OpAdd (Some (NonZeroError ''b''))]
        (NewGuard [WithMaxErrors 0], ())))) =
   Some (MultiError (Some always) (Some (NonZeroError ''b'')) None None [])"
  by (simp add: run_ops_def NewGuard_def zero_Guard_def Add_def Err_value nil_slice_def
      countNonNil4_def len_def always_def)

lemma scenario_always_Is:
  "multiError_Is always_Is (MultiError (Some always) (Some (NonZeroError ''b'')) None None [])
     (Some ErrNonEmpty)"
  by (simp add: multiError_Is.simps errors_Is.simps is_go.simps ErrNonEmpty_def always_def
      always_Is_def)

lemma scenario_always_unwraps:
  "\<not> unwraps_to always ErrNonEmpty" "\<not> unwraps_to (NonZeroError ''b'') ErrNonEmpty"
proof -
  have "\<not> is_go no_Is always ErrNonEmpty True"
    by (simp add: is_go.simps ErrNonEmpty_def always_def no_Is_def)
  then show "\<not> unwraps_to always ErrNonEmpty"
    using unwraps_to_is_go_no_Is by blast
  have "\<not> is_go no_Is (NonZeroError ''b'') ErrNonEmpty True"
    by (simp add: is_go.simps ErrNonEmpty_def ErrNonZero_def)
  then show "\<not> unwraps_to (NonZeroError ''b'') ErrNonEmpty"
    using unwraps_to_is_go_no_Is by blast
qed

section \<open>Claims\<close>

text \<open>
  C1. A Guard fresh from \<^verbatim>\<open>NewGuard\<close> or \<^verbatim>\<open>Reset\<close> receives \<open>N\<close> calls of \<^verbatim>\<open>Add\<close>, each with
  a record that is not \<^verbatim>\<open>nil\<close>. With a cap \<open>c > 0\<close> it keeps \<open>min N c\<close> records and drops
  \<open>max 0 (N - c)\<close>; with the cap \<open>0\<close> it keeps all \<open>N\<close> and drops none; it has counted
  \<open>N\<close> failures; and the kept records are the first \<open>min N c\<close> (all \<open>N\<close> without a cap)
  of the records, in the order of the calls.
\<close>

theorem Add_sequence_counts:
  assumes "g0 = NewGuard opts \<or> g0 = Reset g1"
  shows "let g = fold (\<lambda>e. Add slack (Some e)) es g0; N = int (length es); c = g_max g0 in
           (c > 0 \<longrightarrow> g_n g = min N c \<and> g_dropped g = max 0 (N - c)) \<and>
           (c = 0 \<longrightarrow> g_n g = N \<and> g_dropped g = 0) \<and>
           g_failures g = N \<and>
           kept_records g = map Some (take (nat (if c > 0 then min N c else N)) es)"
proof -
  have "pristine g0"
    using assms pristine_NewGuard pristine_Reset by auto
  from Add_all_from_pristine [OF this, of slack es] show ?thesis
    by (simp add: Let_def)
qed

theorem Add_sequence_counts_witness:
  "let g = fold (\<lambda>e. Add (\<lambda>c. c) (Some e))
             [NonEmptyError ''a'', NonZeroError ''b'', OutOfRangeError ''c'' (- 1) 0 1]
             (NewGuard [WithMaxErrors 2])
   in g_n g = 2 \<and> g_dropped g = 1 \<and> g_failures g = 3 \<and>
      kept_records g = [Some (NonEmptyError ''a''), Some (NonZeroError ''b'')]"
  using Add_sequence_counts [of "NewGuard [WithMaxErrors 2]" "[WithMaxErrors 2]" zero_Guard
      "\<lambda>c. c" "[NonEmptyError ''a'', NonZeroError ''b'', OutOfRangeError ''c'' (- 1) 0 1]"]
  by (simp add: Let_def NewGuard_def zero_Guard_def eval_nat_numeral)

text \<open>
  C2. For the Guard in any state that a list of operations reaches from \<^verbatim>\<open>NewGuard\<close>,
  \<^verbatim>\<open>Err\<close> returns \<^verbatim>\<open>nil\<close> when nothing is kept; the one kept record itself, with no
  aggregate around it, when one record is kept and none was dropped; an aggregate whose
  members are that record and then the notice \<^verbatim>\<open>ErrorsClampedError{Kept: 1, Dropped: dropped}\<close>
  when one record is kept and some were dropped; and, when two or more are kept, an
  aggregate whose members are the kept records in the order they were stored, followed
  by the notice with the current \<open>kept\<close> and \<open>dropped\<close> exactly when \<open>dropped > 0\<close>.
\<close>

theorem Err_by_kept_and_dropped:
  "let g = fst (run_ops slack ops (NewGuard opts, w)) in
     (g_n g = 0 \<longrightarrow> fst (Err slack g) = None) \<and>
     (g_n g = 1 \<and> g_dropped g = 0 \<longrightarrow>
        (\<exists>r. kept_records g = [Some r] \<and> fst (Err slack g) = Some r)) \<and>
     (g_n g = 1 \<and> g_dropped g > 0 \<longrightarrow>
        (\<exists>r m. kept_records g = [Some r] \<and> fst (Err slack g) = Some m \<and> is_multiError m \<and>
           members m = [Some r, Some (ErrorsClampedError 1 (g_dropped g))])) \<and>
     (g_n g \<ge> 2 \<longrightarrow>
        (\<exists>m. fst (Err slack g) = Some m \<and> is_multiError m \<and>
           members m = kept_records g @
             (if g_dropped g > 0 then [Some (ErrorsClampedError (g_n g) (g_dropped g))] else [])))"
proof -
  have "well_formed (fst (run_ops slack ops (NewGuard opts, w)))"
    by (rule run_ops_well_formed) (simp add: pristine_NewGuard pristine_well_formed)
  from Err_well_formed [OF this] show ?thesis
    unfolding Let_def .
qed

theorem Err_by_kept_and_dropped_witness:
  "(let g = fst (run_ops (\<lambda>c. c) [] (NewGuard [], ())) in
      g_n g = 0 \<and> fst (Err (\<lambda>c. c) g) = None) \<and>
   (let g = fst (run_ops (\<lambda>c. c) [OpAdd (Some (NonEmptyError ''a''))] (NewGuard [], ())) in
      g_n g = 1 \<and> g_dropped g = 0 \<and> fst (Err (\<lambda>c. c) g) = Some (NonEmptyError ''a'')) \<and>
   (let g = fst (run_ops (\<lambda>c. c)
                   [OpAdd (Some (NonEmptyError ''a'')), OpAdd (Some (NonZeroError ''b''))]
                   (NewGuard [], ())) in
      g_n g = 1 \<and> g_dropped g > 0 \<and>
      members (the (fst (Err (\<lambda>c. c) g))) =
        [Some (NonEmptyError ''a''), Some (ErrorsClampedError 1 1)]) \<and>
   (let g = fst (run_ops (\<lambda>c. c)
                   [OpAdd (Some (NonEmptyError ''a'')), OpAdd (Some (NonZeroError ''b'')),
                    OpAdd (Some (OutOfRangeError ''c'' (- 1) 0 1))]
                   (NewGuard [WithMaxErrors 2], ())) in
      g_n g \<ge> 2 \<and> g_dropped g > 0 \<and>
      members (the (fst (Err (\<lambda>c. c) g))) =
        [Some (NonEmptyError ''a''), Some (NonZeroError ''b''), Some (ErrorsClampedError 2 1)])"
  using Err_by_kept_and_dropped [of "\<lambda>c. c" "[]" "[]" "()"]
    Err_by_kept_and_dropped [of "\<lambda>c. c" "[OpAdd (Some (NonEmptyError ''a''))]" "[]" "()"]
    Err_by_kept_and_dropped [of "\<lambda>c. c"
      "[OpAdd (Some (NonEmptyError ''a'')), OpAdd (Some (NonZeroError ''b''))]" "[]" "()"]
    Err_by_kept_and_dropped [of "\<lambda>c. c"
      "[OpAdd (Some (NonEmptyError ''a'')), OpAdd (Some (NonZeroError ''b'')),
        OpAdd (Some (OutOfRangeError ''c'' (- 1) 0 1))]" "[WithMaxErrors 2]" "()"]
  by (simp add: Let_def run_ops_def NewGuard_def zero_Guard_def Add_def Err_value
      members_MultiError kept_records_def nil_slice_def countNonNil4_def len_def)

text \<open>
  C3. \<^verbatim>\<open>Err\<close> leaves the Guard as it found it, for any Guard whatever: the slots, the
  overflow slice with its backing array, and the counters \<open>checks\<close>, \<open>failures\<close>, \<open>kept\<close>,
  \<open>dropped\<close>; so a second call, with no operation in between, returns the same value
  as the first, with the same members and the same counts in the notice.
\<close>

theorem Err_leaves_Guard_and_repeats:
  "snd (Err slack g) = g \<and>
   fst (Err slack (snd (Err slack g))) = fst (Err slack g) \<and>
   Stats (snd (Err slack g)) = Stats g \<and>
   kept_records (snd (Err slack g)) = kept_records g \<and>
   g_more (snd (Err slack g)) = g_more g"
  by (simp add: Err_Guard)

text \<open>
  C4. After each operation of any list of \<^verbatim>\<open>Add\<close>, \<^verbatim>\<open>Check\<close>, \<^verbatim>\<open>CheckLazy\<close>, \<^verbatim>\<open>AddCheck\<close>,
  \<^verbatim>\<open>Run\<close>, \<^verbatim>\<open>Stats\<close>, \<^verbatim>\<open>Ok\<close>, \<^verbatim>\<open>Err\<close> and \<^verbatim>\<open>Reset\<close> on a Guard made by \<^verbatim>\<open>NewGuard\<close>
  (that is, after every prefix \<open>take k ops\<close> of the list): with a cap \<open>> 0\<close>,
  \<open>kept \<le> cap\<close> and \<open>kept + dropped = failures\<close>; with the cap \<open>0\<close>, \<open>dropped = 0\<close>.
\<close>

theorem state_invariant_after_each_operation:
  "let g = fst (run_ops slack (take k ops) (NewGuard opts, w)) in
     (g_max g > 0 \<longrightarrow> g_n g \<le> g_max g \<and> g_n g + g_dropped g = g_failures g) \<and>
     (g_max g = 0 \<longrightarrow> g_dropped g = 0)"
proof -
  have "state_invariant (fst (run_ops slack (take k ops) (NewGuard opts, w)))"
    by (rule run_ops_state_invariant) (simp add: NewGuard_state_invariant)
  then show ?thesis
    by (simp add: state_invariant_def Let_def)
qed

theorem state_invariant_after_each_operation_witness:
  "(let g = fst (run_ops (\<lambda>c. c)
                  (take 4 [OpAdd (Some (NonEmptyError ''a'')),
                           OpCheckLazy (Some (\<lambda>w. (Some (NonZeroError ''b''), Suc w))),
                           OpErr,
                           OpCheck (Some (OutOfRangeError ''c'' (- 1) 0 1)),
                           OpReset])
                  (NewGuard [WithMaxErrors 2], 0 :: nat)) in
      g_max g = 2 \<and> g_n g = 2 \<and> g_dropped g = 1 \<and> g_failures g = 3) \<and>
   (let g = fst (run_ops (\<lambda>c. c)
                  (take 2 [OpAdd (Some (NonEmptyError ''a'')),
                           OpRun [Some (\<lambda>w. (Some (NonZeroError ''b''), Suc w))]])
                  (NewGuard [WithMaxErrors 0], 0 :: nat)) in
      g_max g = 0 \<and> g_n g = 2 \<and> g_dropped g = 0 \<and> g_failures g = 2)"
  using state_invariant_after_each_operation [of "\<lambda>c. c" 4
      "[OpAdd (Some (NonEmptyError ''a'')),
        OpCheckLazy (Some (\<lambda>w. (Some (NonZeroError ''b''), Suc w))),
        OpErr,
        OpCheck (Some (OutOfRangeError ''c'' (- 1) 0 1)),
        OpReset]" "[WithMaxErrors 2]" "0 :: nat"]
    state_invariant_after_each_operation [of "\<lambda>c. c" 2
      "[OpAdd (Some (NonEmptyError ''a'')),
        OpRun [Some (\<lambda>w. (Some (NonZeroError ''b''), Suc w))]]" "[WithMaxErrors 0]" "0 :: nat"]
  by (simp add: Let_def run_ops_def NewGuard_def zero_Guard_def Add_def Check_def CheckLazy_def
      AddCheck_def Err_Guard eval_nat_numeral)

text \<open>
  C5. \<^verbatim>\<open>Run\<close> takes its checks in order and tests the cap before each one: at the cap it
  returns at once, the Guard and the caller's world as they were, so no remaining check
  is evaluated; below the cap it hands the check to \<^verbatim>\<open>AddCheck\<close>, which does what
  \<^verbatim>\<open>CheckLazy\<close> does, and goes on with the rest. A Guard made with \<^verbatim>\<open>WithMaxErrors(2)\<close>
  and given three checks, the first two of which return failures, ends with
  \<open>checks = 2\<close>, \<open>kept = 2\<close>, \<open>dropped = 0\<close>, and the world as the second check left it,
  whatever the third check is: the third is never evaluated.
\<close>

theorem Run_stops_at_cap:
  "(at_cap g \<longrightarrow> Run slack fs (g, w) = (g, w)) \<and>
   (\<not> at_cap g \<longrightarrow> Run slack (f # fs) (g, w) = Run slack fs (AddCheck slack f (g, w))) \<and>
   AddCheck slack f (g, w) = CheckLazy slack f (g, w) \<and>
   (fst (f1 w) = Some a \<and> fst (f2 (snd (f1 w))) = Some b \<longrightarrow>
      (let r = Run slack [Some f1, Some f2, f3] (NewGuard [WithMaxErrors 2], w) in
         g_checks (fst r) = 2 \<and> g_n (fst r) = 2 \<and> g_dropped (fst r) = 0 \<and>
         g_failures (fst r) = 2 \<and> kept_records (fst r) = [Some a, Some b] \<and>
         snd r = snd (f2 (snd (f1 w)))))"
proof -
  have mx: "g_max (NewGuard [WithMaxErrors 2]) = 2"
    by (simp add: NewGuard_def)
  have d: "g_dropped (NewGuard [WithMaxErrors 2]) = 0"
    by (simp add: NewGuard_def zero_Guard_def)
  have scenario: "let r = Run slack [Some f1, Some f2, f3] (NewGuard [WithMaxErrors 2], w) in
         g_checks (fst r) = 2 \<and> g_n (fst r) = 2 \<and> g_dropped (fst r) = 0 \<and>
         g_failures (fst r) = 2 \<and> kept_records (fst r) = [Some a, Some b] \<and>
         snd r = snd (f2 (snd (f1 w)))"
    if "fst (f1 w) = Some a" and "fst (f2 (snd (f1 w))) = Some b"
    unfolding Run_scenario [of "NewGuard [WithMaxErrors 2]" f1 w a f2 b slack f3,
        OF mx pristine_NewGuard that]
    using d by (simp add: Let_def kept_records_def eval_nat_numeral)
  show ?thesis
    using scenario Run_at_cap [of g slack fs w] Run_not_at_cap [of g slack f fs w]
      AddCheck_eq_CheckLazy [of slack f "(g, w)"]
    by blast
qed

theorem Run_stops_at_cap_witness:
  "(let g = Add (\<lambda>c. c) (Some (NonEmptyError ''a'')) (NewGuard []) in
      at_cap g \<and> Run (\<lambda>c. c) [Some (\<lambda>w. (Some (NonZeroError ''b''), w @ [1]))] (g, []) = (g, [])) \<and>
   (let r = Run (\<lambda>c. c)
              [Some (\<lambda>w. (Some (NonEmptyError ''a''), w @ [1])),
               Some (\<lambda>w. (Some (NonZeroError ''b''), w @ [2])),
               Some (\<lambda>w. (Some (OutOfRangeError ''c'' (- 1) 0 1), w @ [3]))]
              (NewGuard [WithMaxErrors 2], [] :: nat list) in
      \<not> at_cap (NewGuard [WithMaxErrors 2]) \<and>
      g_checks (fst r) = 2 \<and> g_n (fst r) = 2 \<and> g_dropped (fst r) = 0 \<and> g_failures (fst r) = 2 \<and>
      kept_records (fst r) = [Some (NonEmptyError ''a''), Some (NonZeroError ''b'')] \<and>
      snd r = [1, 2])"
  using Run_stops_at_cap
      [of "Add (\<lambda>c. c) (Some (NonEmptyError ''a'')) (NewGuard [])" "\<lambda>c. c"
        "[Some (\<lambda>w. (Some (NonZeroError ''b''), w @ [1]))]" "[] :: nat list"
        None "\<lambda>w. (None, w)" "NonEmptyError ''a''" "\<lambda>w. (None, w)" "NonEmptyError ''a''" None]
    Run_stops_at_cap
      [of "NewGuard [WithMaxErrors 2]" "\<lambda>c. c" "[]" "[] :: nat list" None
        "\<lambda>w. (Some (NonEmptyError ''a''), w @ [1])" "NonEmptyError ''a''"
        "\<lambda>w. (Some (NonZeroError ''b''), w @ [2])" "NonZeroError ''b''"
        "Some (\<lambda>w. (Some (OutOfRangeError ''c'' (- 1) 0 1), w @ [3]))"]
  by (simp add: Let_def NewGuard_def zero_Guard_def at_cap_def Add_def)

text \<open>
  C6. At the cap (\<open>cap > 0\<close> and \<open>kept \<ge> cap\<close>) \<^verbatim>\<open>CheckLazy\<close> does nothing: the Guard, with
  all its counters, and the caller's world are returned as they were, so the closure was
  not evaluated. Below the cap, \<^verbatim>\<open>CheckLazy\<close> with a closure adds one to \<open>checks\<close>,
  evaluates the closure once (the world is the one a single evaluation leaves), and
  hands its result to \<^verbatim>\<open>Add\<close> exactly when the result is a record.
\<close>

theorem CheckLazy_skips_at_cap_else_evaluates_once:
  "(at_cap g \<longrightarrow> CheckLazy slack makeErr (g, w) = (g, w)) \<and>
   (\<not> at_cap g \<longrightarrow>
      g_checks (fst (CheckLazy slack (Some f) (g, w))) = g_checks g + 1 \<and>
      snd (CheckLazy slack (Some f) (g, w)) = snd (f w) \<and>
      fst (CheckLazy slack (Some f) (g, w)) =
        (case fst (f w) of
           None \<Rightarrow> g\<lparr>g_checks := g_checks g + 1\<rparr>
         | Some r \<Rightarrow> Add slack (Some r) (g\<lparr>g_checks := g_checks g + 1\<rparr>)))"
  by (simp add: CheckLazy_at_cap CheckLazy_not_at_cap Add_config Add_None split: option.splits)

theorem CheckLazy_skips_at_cap_else_evaluates_once_witness:
  "(let g = Add (\<lambda>c. c) (Some (NonEmptyError ''a'')) (NewGuard []) in
      at_cap g \<and>
      CheckLazy (\<lambda>c. c) (Some (\<lambda>w. (Some (NonZeroError ''b''), Suc w))) (g, 0 :: nat) = (g, 0)) \<and>
   (let g = NewGuard [WithMaxErrors 2];
        r = CheckLazy (\<lambda>c. c) (Some (\<lambda>w. (Some (NonZeroError ''b''), Suc w))) (g, 0 :: nat) in
      \<not> at_cap g \<and> g_checks (fst r) = 1 \<and> snd r = 1 \<and> g_failures (fst r) = 1 \<and>
      g_n (fst r) = 1 \<and> g_e0 (fst r) = Some (NonZeroError ''b''))"
  using CheckLazy_skips_at_cap_else_evaluates_once
      [of "Add (\<lambda>c. c) (Some (NonEmptyError ''a'')) (NewGuard [])" "\<lambda>c. c"
        "Some (\<lambda>w. (Some (NonZeroError ''b''), Suc w))" "0 :: nat" "\<lambda>w. (None, w)"]
    CheckLazy_skips_at_cap_else_evaluates_once
      [of "NewGuard [WithMaxErrors 2]" "\<lambda>c. c" None "0 :: nat"
        "\<lambda>w. (Some (NonZeroError ''b''), Suc w)"]
  by (simp add: Let_def NewGuard_def zero_Guard_def at_cap_def Add_def)

text \<open>
  C7 as stated fails when a member is an error of a caller whose own \<^verbatim>\<open>Is\<close> method accepts
  the sentinel. A Guard made with \<^verbatim>\<open>WithMaxErrors(0)\<close> is given \<open>always\<close> and then
  \<^verbatim>\<open>NonZeroError{"b"}\<close>; the aggregate that \<^verbatim>\<open>Err\<close> returns has these two members, its
  category test for \<^verbatim>\<open>ErrNonEmpty\<close> is true, and neither member unwraps to \<^verbatim>\<open>ErrNonEmpty\<close>.
\<close>

theorem multiError_Is_true_by_a_member_Is_method:
  "fst (Err id
     (fst (run_ops id [OpAdd (Some always), OpAdd (Some (NonZeroError ''b''))]
        (NewGuard [WithMaxErrors 0], ())))) =
     Some (MultiError (Some always) (Some (NonZeroError ''b'')) None None []) \<and>
   members (MultiError (Some always) (Some (NonZeroError ''b'')) None None []) =
     [Some always, Some (NonZeroError ''b'')] \<and>
   multiError_Is always_Is (MultiError (Some always) (Some (NonZeroError ''b'')) None None [])
     (Some ErrNonEmpty) \<and>
   \<not> unwraps_to always ErrNonEmpty \<and>
   \<not> unwraps_to (NonZeroError ''b'') ErrNonEmpty"
  by (simp add: scenario_always_Err scenario_always_Is scenario_always_unwraps members_MultiError)

text \<open>
  C7 as the code has it. The category test of an aggregate, asked for a sentinel that is
  not \<^verbatim>\<open>nil\<close>, is true exactly when some member has on its chain (the member itself,
  then what it unwraps to, directly or transitively) the sentinel, or an error of a
  caller whose own \<^verbatim>\<open>Is\<close> method accepts the sentinel. When no error in the aggregate has
  such a method, as for every error of the package, that is: exactly when some member
  unwraps to the sentinel. This holds for every \<^verbatim>\<open>multiError\<close> value, so for every
  aggregate that \<^verbatim>\<open>Err\<close> returns. The notice \<^verbatim>\<open>ErrorsClampedError\<close> is a member like the
  others: it unwraps to \<^verbatim>\<open>ErrClamped\<close>, a sentinel distinct from the six of the validators,
  and an aggregate made while \<open>dropped > 0\<close> passes the test for \<^verbatim>\<open>ErrClamped\<close>.
\<close>

theorem multiError_Is_iff_some_member_accepts:
  "multiError_Is cis (MultiError e0 e1 e2 e3 ms) (Some (Sentinel s)) =
     (\<exists>x. Some x \<in> set (members (MultiError e0 e1 e2 e3 ms)) \<and>
          chain_accepts cis x (Sentinel s)) \<and>
   (without_Is cis (MultiError e0 e1 e2 e3 ms) \<longrightarrow>
      multiError_Is cis (MultiError e0 e1 e2 e3 ms) (Some (Sentinel s)) =
        (\<exists>x. Some x \<in> set (members (MultiError e0 e1 e2 e3 ms)) \<and> unwraps_to x (Sentinel s))) \<and>
   (fst (Err slack g) = Some m \<and> is_multiError m \<longrightarrow>
      multiError_Is cis m (Some (Sentinel s)) =
        (\<exists>x. Some x \<in> set (members m) \<and> chain_accepts cis x (Sentinel s))) \<and>
   unwraps_to (ErrorsClampedError k d) ErrClamped \<and>
   ErrClamped \<notin> {ErrNotNil, ErrNonZero, ErrNonEmpty, ErrLenAtLeast, ErrOutOfRange, ErrNotInSet} \<and>
   (1 \<le> g_n g \<and> g_e0 g \<noteq> None \<and> g_dropped g > 0 \<longrightarrow>
      (\<exists>a. fst (Err slack g) = Some a \<and> is_multiError a \<and>
           multiError_Is cis a (Some ErrClamped)))"
proof -
  have c: "comparable (Sentinel s)"
    by simp
  have distinct: "ErrClamped \<notin>
      {ErrNotNil, ErrNonZero, ErrNonEmpty, ErrLenAtLeast, ErrOutOfRange, ErrNotInSet}"
    by (simp add: ErrClamped_def ErrNotNil_def ErrNonZero_def ErrNonEmpty_def ErrLenAtLeast_def
        ErrOutOfRange_def ErrNotInSet_def)
  have plain: "multiError_Is cis (MultiError e0 e1 e2 e3 ms) (Some (Sentinel s)) =
        (\<exists>x. Some x \<in> set (members (MultiError e0 e1 e2 e3 ms)) \<and> unwraps_to x (Sentinel s))"
    if "without_Is cis (MultiError e0 e1 e2 e3 ms)"
    using multiError_Is_unwraps_to [OF c that] by simp
  show ?thesis
    using distinct plain Err_notice_Is_ErrClamped [of g slack cis] notice_unwraps_to [of k d]
    by (simp add: multiError_Is_chain_accepts [OF c])
qed

theorem multiError_Is_iff_some_member_accepts_witness:
  "(let g = fst (run_ops (\<lambda>c. c)
             [OpAdd (Some (NonEmptyError ''a'')), OpAdd (Some (NonZeroError ''b'')),
              OpAdd (Some (OutOfRangeError ''c'' (- 1) 0 1))]
             (NewGuard [WithMaxErrors 2], ()));
        m = MultiError (Some (NonEmptyError ''a'')) (Some (NonZeroError ''b'')) None None
             [Some (ErrorsClampedError 2 1)]
    in fst (Err (\<lambda>c. c) g) = Some m \<and> is_multiError m \<and> without_Is always_Is m \<and>
       1 \<le> g_n g \<and> g_e0 g \<noteq> None \<and> g_dropped g > 0 \<and>
       multiError_Is always_Is m (Some ErrClamped) \<and>
       multiError_Is always_Is m (Some ErrNonEmpty) \<and>
       (\<exists>x. Some x \<in> set (members m) \<and> unwraps_to x ErrNonEmpty) \<and>
       \<not> multiError_Is always_Is m (Some ErrOutOfRange) \<and>
       \<not> (\<exists>x. Some x \<in> set (members m) \<and> unwraps_to x ErrOutOfRange)) \<and>
   (let m = MultiError (Some always) (Some (NonZeroError ''b'')) None None []
    in multiError_Is always_Is m (Some ErrNonEmpty) \<and>
       (\<exists>x. Some x \<in> set (members m) \<and> chain_accepts always_Is x ErrNonEmpty))"
proof -
  let ?g = "fst (run_ops (\<lambda>c. c)
             [OpAdd (Some (NonEmptyError ''a'')), OpAdd (Some (NonZeroError ''b'')),
              OpAdd (Some (OutOfRangeError ''c'' (- 1) 0 1))]
             (NewGuard [WithMaxErrors 2], ()))"
  let ?m = "MultiError (Some (NonEmptyError ''a'')) (Some (NonZeroError ''b'')) None None
             [Some (ErrorsClampedError 2 1)]"
  let ?ma = "MultiError (Some always) (Some (NonZeroError ''b'')) None None []"
  have err: "fst (Err (\<lambda>c. c) ?g) = Some ?m"
    by (rule scenario_B_Err)
  have without: "without_Is always_Is ?m"
    by (simp add: always_Is_def)
  have state: "1 \<le> g_n ?g \<and> g_e0 ?g \<noteq> None \<and> g_dropped ?g > 0"
    by (simp add: run_ops_def NewGuard_def zero_Guard_def Add_def)
  note plain_non_empty =
    multiError_Is_iff_some_member_accepts
      [of always_Is "Some (NonEmptyError ''a'')" "Some (NonZeroError ''b'')" None None
        "[Some (ErrorsClampedError 2 1)]" "''sanity:non_empty''" "\<lambda>c. c" ?g ?m 2 1,
        THEN conjunct2, THEN conjunct1, THEN mp, OF without]
  note plain_out_of_range =
    multiError_Is_iff_some_member_accepts
      [of always_Is "Some (NonEmptyError ''a'')" "Some (NonZeroError ''b'')" None None
        "[Some (ErrorsClampedError 2 1)]" "''sanity:out_of_range''" "\<lambda>c. c" ?g ?m 2 1,
        THEN conjunct2, THEN conjunct1, THEN mp, OF without]
  note accepts =
    multiError_Is_iff_some_member_accepts
      [of always_Is "Some always" "Some (NonZeroError ''b'')" None None "[]"
        "''sanity:non_empty''" "\<lambda>c. c" ?g ?m 2 1, THEN conjunct1]
  have p1: "\<exists>x. Some x \<in> set (members ?m) \<and> unwraps_to x ErrNonEmpty"
    using scenario_B_Is(1) unfolding ErrNonEmpty_def plain_non_empty .
  have p2: "\<not> (\<exists>x. Some x \<in> set (members ?m) \<and> unwraps_to x ErrOutOfRange)"
    using scenario_B_Is(3) unfolding ErrOutOfRange_def plain_out_of_range .
  have p3: "\<exists>x. Some x \<in> set (members ?ma) \<and> chain_accepts always_Is x ErrNonEmpty"
    using scenario_always_Is unfolding ErrNonEmpty_def accepts .
  from err without state scenario_B_Is scenario_always_Is p1 p2 p3 show ?thesis
    unfolding Let_def by simp
qed

text \<open>
  C8. After \<^verbatim>\<open>Reset\<close>, whatever the Guard held, the four inline slots are \<^verbatim>\<open>nil\<close>, the
  overflow slice is the \<^verbatim>\<open>nil\<close> slice, no record is kept, the counters \<open>checks\<close>,
  \<open>failures\<close>, \<open>kept\<close> and \<open>dropped\<close> are zero, and the cap, the compaction ratio and the
  thread-safety setting are what they were.
\<close>

theorem Reset_clears_state_keeps_config:
  "g_e0 (Reset g) = None \<and> g_e1 (Reset g) = None \<and> g_e2 (Reset g) = None \<and>
   g_e3 (Reset g) = None \<and> g_more (Reset g) = nil_slice \<and> kept_records (Reset g) = [] \<and>
   g_n (Reset g) = 0 \<and> g_checks (Reset g) = 0 \<and> g_failures (Reset g) = 0 \<and>
   g_dropped (Reset g) = 0 \<and>
   Stats (Reset g) = \<lparr>Checks = 0, Failures = 0, Kept = 0, Dropped = 0\<rparr> \<and> Ok (Reset g) \<and>
   g_max (Reset g) = g_max g \<and> g_compactRatio (Reset g) = g_compactRatio g \<and>
   g_mu (Reset g) = g_mu g"
  by (simp add: Reset_def kept_records_def Stats_def Ok_def)

text \<open>
  C9. An absent input changes nothing and raises nothing: \<^verbatim>\<open>Add\<close> and \<^verbatim>\<open>Check\<close> with a
  \<^verbatim>\<open>nil\<close> record return the Guard as it was, and \<^verbatim>\<open>CheckLazy\<close> and \<^verbatim>\<open>AddCheck\<close> with a \<^verbatim>\<open>nil\<close>
  closure return the Guard and the caller's world as they were.
\<close>

theorem absent_input_is_no_op:
  "Add slack None g = g \<and> Check slack None g = g \<and>
   CheckLazy slack None (g, w) = (g, w) \<and> AddCheck slack None (g, w) = (g, w)"
  by (simp add: Add_def Check_def CheckLazy_def AddCheck_def)

text \<open>
  C10. \<^verbatim>\<open>GroupLen\<close> is documented to report the number of underlying errors when its
  argument is this package's group. It asks the dynamic type of the argument for a method
  \<^verbatim>\<open>Len() int\<close>, which \<^verbatim>\<open>multiError\<close> does not have. So for the aggregate that \<^verbatim>\<open>Err\<close> returns
  after three calls of \<^verbatim>\<open>Add\<close> under \<^verbatim>\<open>WithMaxErrors(2)\<close>, a group of three members, the code
  returns \<open>(0, false)\<close>, as it does for every \<^verbatim>\<open>multiError\<close>; it answers \<open>true\<close> only for an
  error of another type that has the method.
\<close>

theorem GroupLen_misses_the_package_group:
  "fst (Err (\<lambda>c. c)
     (fst (run_ops (\<lambda>c. c)
        [OpAdd (Some (NonEmptyError ''a'')), OpAdd (Some (NonZeroError ''b'')),
         OpAdd (Some (OutOfRangeError ''c'' (- 1) 0 1))]
        (NewGuard [WithMaxErrors 2], ())))) =
     Some (MultiError (Some (NonEmptyError ''a'')) (Some (NonZeroError ''b'')) None None
            [Some (ErrorsClampedError 2 1)]) \<and>
   members (MultiError (Some (NonEmptyError ''a'')) (Some (NonZeroError ''b'')) None None
            [Some (ErrorsClampedError 2 1)]) =
     [Some (NonEmptyError ''a''), Some (NonZeroError ''b''), Some (ErrorsClampedError 2 1)] \<and>
   GroupLen (Some (MultiError (Some (NonEmptyError ''a'')) (Some (NonZeroError ''b'')) None None
            [Some (ErrorsClampedError 2 1)])) = (0, False) \<and>
   GroupLen (Some (MultiError e0 e1 e2 e3 ms)) = (0, False) \<and>
   GroupLen (Some (Foreign ''group'' None (Some 3))) = (3, True)"
  by (simp add: scenario_B_Err members_MultiError GroupLen_def)

end
